theory Spec2Isabelle
  imports Complex_Main "HOL-Library.Multiset"
begin

section \<open>Python values\<close>

text \<open>
  A Python \<open>str\<close> is a sequence of Unicode code points; a code point is a natural
  number.  \<open>ascii\<close> reads a literal, so that examples stay legible.
\<close>

type_synonym pystr = "nat list"

definition ascii :: "string \<Rightarrow> pystr" where
  "ascii s = map of_char s"

text \<open>
  The values a \<open>JSONField\<close> holds: \<open>None\<close>, booleans, integers, strings, lists and
  dictionaries with string keys, in insertion order.  Floats are left out.
\<close>

datatype pyval =
    PyNone
  | PyBool bool
  | PyInt int
  | PyStr pystr
  | PyList "pyval list"
  | PyDict "(pystr \<times> pyval) list"

text \<open>
  The exceptions the modelled code can raise.  \<open>ValueError\<close> carries the name that
  line 34 formats into the message \<open>'Duplicate name: {}'\<close>.
\<close>

datatype error = TypeError | IndexError | AttributeError | ValueError pyval


fun py_eq :: "pyval \<Rightarrow> pyval \<Rightarrow> bool" where
  "py_eq (PyBool b) (PyInt i) = (i = (if b then 1 else 0))"
| "py_eq (PyInt i) (PyBool b) = (i = (if b then 1 else 0))"
| "py_eq x y = (x = y)"

definition py_in :: "pyval \<Rightarrow> pyval list \<Rightarrow> bool" where
  "py_in x s = list_ex (py_eq x) s"

subsection \<open>String methods\<close>

text \<open>\<open>sep.join(xs)\<close>.\<close>

fun str_join :: "pystr \<Rightarrow> pystr list \<Rightarrow> pystr" where
  "str_join sep [] = []"
| "str_join sep [x] = x"
| "str_join sep (x # y # ys) = x @ sep @ str_join sep (y # ys)"

text \<open>
  \<open>s.split(sep)\<close> for a separator of one code point: the pieces between the
  occurrences of \<open>sep\<close>; a string without \<open>sep\<close> (the empty string too) is one piece.
\<close>

fun str_split :: "nat \<Rightarrow> pystr \<Rightarrow> pystr list" where
  "str_split sep [] = [[]]"
| "str_split sep (c # cs) =
     (if c = sep then [] # str_split sep cs
      else (case str_split sep cs of
              [] \<Rightarrow> [[c]]
            | p # ps \<Rightarrow> (c # p) # ps))"

text \<open>
  \<open>s.strip()\<close> removes the leading and trailing code points for which \<open>str.isspace\<close>
  holds.
\<close>

definition isspace :: "nat \<Rightarrow> bool" where
  "isspace c \<longleftrightarrow>
     (9 \<le> c \<and> c \<le> 13) \<or> (28 \<le> c \<and> c \<le> 32) \<or> c = 133 \<or> c = 160 \<or> c = 5760 \<or>
     (8192 \<le> c \<and> c \<le> 8202) \<or> c = 8232 \<or> c = 8233 \<or> c = 8239 \<or> c = 8287 \<or> c = 12288"

definition str_strip :: "pystr \<Rightarrow> pystr" where
  "str_strip s = rev (dropWhile isspace (rev (dropWhile isspace s)))"

text \<open>\<open>int(x)\<close> for a float \<open>x\<close> truncates towards zero.\<close>

definition py_int :: "rat \<Rightarrow> int" where
  "py_int x = (if 0 \<le> x then \<lfloor>x\<rfloor> else \<lceil>x\<rceil>)"

section \<open>Field codecs\<close>

subsection \<open>\<open>TagField\<close> (lines 18--23)\<close>

definition TagField_db_value :: "pystr list \<Rightarrow> pystr" where
  "TagField_db_value value = str_join [32] value"

definition TagField_python_value :: "pystr \<Rightarrow> pystr list" where
  "TagField_python_value value = str_split 32 (str_strip value)"

subsection \<open>\<open>JSONField\<close> (lines 26--40)\<close>







subsection \<open>\<open>ListField\<close> (lines 43--49)\<close>

text \<open>
  \<open>db_value\<close> falls off its end when \<open>value\<close> is falsy (\<open>None\<close> or the empty list)
  and so returns \<open>None\<close>; \<open>python_value\<close> calls \<open>split\<close> on what it is given, which
  \<open>None\<close> does not have.
\<close>

definition ListField_db_value :: "pystr list option \<Rightarrow> pystr option" where
  "ListField_db_value value =
     (case value of
        None \<Rightarrow> None
      | Some [] \<Rightarrow> None
      | Some (x # xs) \<Rightarrow> Some (str_join [31] (x # xs)))"

definition ListField_python_value :: "pystr option \<Rightarrow> error + pystr list" where
  "ListField_python_value value =
     (case value of
        None \<Rightarrow> Inl AttributeError
      | Some s \<Rightarrow> Inr (str_split 31 s))"

section \<open>Tables and the identifier loop\<close>

text \<open>
  A table is the list of its rows.  \<open>model_class.get_or_none(col=v)\<close> is the first row
  whose column equals \<open>v\<close>; \<open>model_class.select(fn.Max(col)).scalar()\<close> is the largest
  value of the column, and \<open>None\<close> on an empty table.
\<close>

definition get_or_none :: "('r \<Rightarrow> 'k) \<Rightarrow> 'r list \<Rightarrow> 'k \<Rightarrow> 'r option" where
  "get_or_none col rows v = find (\<lambda>r. col r = v) rows"

definition select_max :: "('r \<Rightarrow> int) \<Rightarrow> 'r list \<Rightarrow> int option" where
  "select_max col rows =
     (case rows of
        [] \<Rightarrow> None
      | r # rs \<Rightarrow> Some (fold max (map col rs) (col r)))"

lemma get_or_none_None: "get_or_none col rows v = None \<longleftrightarrow> v \<notin> col ` set rows"
  by (auto simp: get_or_none_def find_None_iff)

lemma select_max_Max: "rows \<noteq> [] \<Longrightarrow> select_max col rows = Some (Max (col ` set rows))"
  by (cases rows) (simp_all add: select_max_def Max.set_eq_fold [symmetric])

lemma max_plus_one_absent: "select_max col rows = Some m \<Longrightarrow> m + 1 \<notin> col ` set rows"
proof
  assume a: "select_max col rows = Some m" and b: "m + 1 \<in> col ` set rows"
  from a have "rows \<noteq> []" by (auto simp: select_max_def)
  with a have "m = Max (col ` set rows)" by (simp add: select_max_Max)
  moreover from b have "m + 1 \<le> Max (col ` set rows)" by (intro Max_ge) auto
  ultimately show False by simp
qed

text \<open>
  The loop of lines 160--161, 255--256 and 310--311, the same in the three hooks:
  \<^verbatim>\<open>while model_class.get_or_none(id=instance.id) is not None:
      instance.id = model_class.select(pv.fn.Max(model_class.id)).scalar() + 1\<close>
  \<open>None + 1\<close> raises \<open>TypeError\<close>.
\<close>

function allocate_id :: "('r \<Rightarrow> int) \<Rightarrow> 'r list \<Rightarrow> int \<Rightarrow> error + int" where
  "allocate_id col rows candidate =
     (if get_or_none col rows candidate \<noteq> None
      then (case select_max col rows of
              None \<Rightarrow> Inl TypeError
            | Some m \<Rightarrow> allocate_id col rows (m + 1))
      else Inr candidate)"
  by pat_completeness auto
termination
  by (relation "measure (\<lambda>(col, rows, c). if c \<in> col ` set rows then 1 else 0)")
     (auto simp: get_or_none_None dest: max_plus_one_absent)

text \<open>The number of times the same loop evaluates its condition.\<close>

function allocate_checks :: "('r \<Rightarrow> int) \<Rightarrow> 'r list \<Rightarrow> int \<Rightarrow> nat" where
  "allocate_checks col rows candidate =
     (if get_or_none col rows candidate \<noteq> None
      then (case select_max col rows of
              None \<Rightarrow> 1
            | Some m \<Rightarrow> 1 + allocate_checks col rows (m + 1))
      else 1)"
  by pat_completeness auto
termination
  by (relation "measure (\<lambda>(col, rows, c). if c \<in> col ` set rows then 1 else 0)")
     (auto simp: get_or_none_None dest: max_plus_one_absent)

declare allocate_id.simps [simp del] allocate_checks.simps [simp del]

section \<open>Records and pre-save hooks\<close>

text \<open>
  A field declared without a default holds \<open>None\<close> until it is assigned: its type is
  an option.  \<open>time()\<close> is read from the environment; the hooks take its value, the
  seconds since the epoch, as a rational (the rounding of the float product
  \<open>time() * 1000\<close> is not modelled).
\<close>

subsection \<open>\<open>Notes\<close> (lines 107--168)\<close>

record Notes =
  notes_id :: int
  notes_guid :: pystr
  notes_mid :: "int option"
  notes_mod :: "int option"
  notes_usn :: int
  notes_tags :: "pystr list"
  notes_flds :: "pystr list option"
  notes_sfld :: "pystr option"
  notes_csum :: "int option"
  notes_flags :: int
  notes_data :: pystr

text \<open>
  The loop of lines 163--164:
  \<^verbatim>\<open>while model_class.get_or_none(guid=instance.guid) is not None:
      instance.guid = guid64()\<close>
  \<open>guid64\<close> is the random generator of \<open>ankisync.builder.guid\<close>; the list
  \<open>guid64s\<close> holds the values its successive calls return.  The loop may run
  forever: \<open>None\<close> says that it asked for more values than the list holds.
\<close>

fun guid_loop :: "Notes list \<Rightarrow> pystr \<Rightarrow> pystr list \<Rightarrow> pystr option" where
  "guid_loop rows guid [] =
     (if get_or_none notes_guid rows guid \<noteq> None then None else Some guid)"
| "guid_loop rows guid (g # guid64s) =
     (if get_or_none notes_guid rows guid \<noteq> None then guid_loop rows g guid64s
      else Some guid)"

text \<open>
  \<open>stripHTMLMedia\<close> and \<open>field_checksum\<close> come from \<open>ankisync.anki_util\<close> and are
  parameters.  \<open>instance.flds[0]\<close> raises \<open>TypeError\<close> on \<open>None\<close> and \<open>IndexError\<close>
  on the empty list.  The argument \<open>created\<close> is never read.
\<close>

definition notes_pre_save ::
  "(pystr \<Rightarrow> pystr) \<Rightarrow> (pystr \<Rightarrow> int) \<Rightarrow> pystr list \<Rightarrow> rat \<Rightarrow>
   Notes list \<Rightarrow> Notes \<Rightarrow> bool \<Rightarrow> (error + Notes) option" where
  "notes_pre_save stripHTMLMedia field_checksum guid64s time model_class instance created =
     (case allocate_id notes_id model_class (notes_id instance) of
        Inl e \<Rightarrow> Some (Inl e)
      | Inr i \<Rightarrow>
          (case guid_loop model_class (notes_guid instance) guid64s of
             None \<Rightarrow> None
           | Some g \<Rightarrow>
               (case notes_flds instance of
                  None \<Rightarrow> Some (Inl TypeError)
                | Some [] \<Rightarrow> Some (Inl IndexError)
                | Some (f # _) \<Rightarrow>
                    Some (Inr (instance
                      \<lparr>notes_id := i,
                       notes_guid := g,
                       notes_mod := Some (py_int (time * 1000)),
                       notes_sfld := Some (stripHTMLMedia f),
                       notes_csum := Some (field_checksum (stripHTMLMedia f))\<rparr>)))))"

subsection \<open>\<open>Cards\<close> (lines 171--260)\<close>



subsection \<open>\<open>Revlog\<close> (lines 263--311)\<close>



subsection \<open>Saving a note\<close>

text \<open>
  The hooks are registered with \<open>playhouse.signals\<close> (lines 102, 158, 253, 308);
  the framework runs them from \<open>Model.save\<close>.  For \<open>Notes\<close>:
  \<open>created\<close> is \<open>force_insert or not bool(instance.id)\<close>; the hook runs; then the row
  is written, by an \<open>INSERT\<close> when \<open>force_insert\<close> is set (as \<open>Notes.create\<close>
  does) and otherwise by an \<open>UPDATE\<close> of the row whose \<open>id\<close> is the one the hook left
  on the instance.  A hook that raises, or that does not return, writes nothing.  A
  request is \<open>(force_insert, guid64s, time, instance)\<close>.
\<close>

definition notes_write :: "bool \<Rightarrow> Notes list \<Rightarrow> Notes \<Rightarrow> Notes list" where
  "notes_write force_insert rows instance =
     (if force_insert then rows @ [instance]
      else map (\<lambda>r. if notes_id r = notes_id instance then instance else r) rows)"

definition notes_save ::
  "(pystr \<Rightarrow> pystr) \<Rightarrow> (pystr \<Rightarrow> int) \<Rightarrow> Notes list \<Rightarrow>
   bool \<times> pystr list \<times> rat \<times> Notes \<Rightarrow> Notes list" where
  "notes_save stripHTMLMedia field_checksum rows request =
     (case request of (force_insert, guid64s, time, instance) \<Rightarrow>
        (case notes_pre_save stripHTMLMedia field_checksum guid64s time rows instance
                (force_insert \<or> notes_id instance = 0) of
           Some (Inr instance') \<Rightarrow> notes_write force_insert rows instance'
         | _ \<Rightarrow> rows))"

section \<open>The identifier loop\<close>

lemma allocate_id_absent:
  "candidate \<notin> col ` set rows \<Longrightarrow> allocate_id col rows candidate = Inr candidate"
  by (subst allocate_id.simps) (simp add: get_or_none_None)

lemma allocate_id_present:
  assumes "candidate \<in> col ` set rows"
  shows "allocate_id col rows candidate = Inr (Max (col ` set rows) + 1)"
proof -
  from assms have ne: "rows \<noteq> []" by auto
  then have m: "select_max col rows = Some (Max (col ` set rows))"
    by (rule select_max_Max)
  then have "Max (col ` set rows) + 1 \<notin> col ` set rows"
    by (rule max_plus_one_absent)
  then have "allocate_id col rows (Max (col ` set rows) + 1) = Inr (Max (col ` set rows) + 1)"
    by (rule allocate_id_absent)
  with assms m show ?thesis
    by (subst allocate_id.simps) (simp add: get_or_none_None)
qed



lemma allocate_id_fresh:
  fixes col :: "'r \<Rightarrow> int"
  shows "(if candidate \<in> col ` set rows then Max (col ` set rows) + 1 else candidate)
    \<notin> col ` set rows"
proof (cases "candidate \<in> col ` set rows")
  case True
  then have "rows \<noteq> []" by auto
  then have "select_max col rows = Some (Max (col ` set rows))" by (rule select_max_Max)
  then have "Max (col ` set rows) + 1 \<notin> col ` set rows" by (rule max_plus_one_absent)
  with True show ?thesis by simp
next
  case False
  then show ?thesis by simp
qed



section \<open>The string codecs\<close>

lemma str_split_no_sep: "sep \<notin> set s \<Longrightarrow> str_split sep s = [s]"
  by (induction s) auto

lemma str_split_append:
  "sep \<notin> set x \<Longrightarrow> str_split sep (x @ sep # rest) = x # str_split sep rest"
  by (induction x) auto

lemma str_split_join:
  "xs \<noteq> [] \<Longrightarrow> \<forall>x\<in>set xs. sep \<notin> set x \<Longrightarrow> str_split sep (str_join [sep] xs) = xs"
proof (induction "[sep]" xs rule: str_join.induct)
  case 1
  then show ?case by simp
next
  case (2 x)
  then show ?case by (simp add: str_split_no_sep)
next
  case (3 x y ys)
  then show ?case by (simp add: str_split_append)
qed

lemma dropWhile_hd_id: "xs \<noteq> [] \<Longrightarrow> \<not> P (hd xs) \<Longrightarrow> dropWhile P xs = xs"
  by (cases xs) auto

lemma str_strip_id:
  assumes "s \<noteq> []" "\<not> isspace (hd s)" "\<not> isspace (last s)"
  shows "str_strip s = s"
proof -
  from assms have "dropWhile isspace s = s" by (simp add: dropWhile_hd_id)
  moreover from assms have "dropWhile isspace (rev s) = rev s"
    by (intro dropWhile_hd_id) (simp_all add: hd_rev)
  ultimately show ?thesis by (simp add: str_strip_def)
qed

lemma str_join_last_not_Nil: "xs \<noteq> [] \<Longrightarrow> last xs \<noteq> [] \<Longrightarrow> str_join sep xs \<noteq> []"
  by (induction sep xs rule: str_join.induct) auto

lemma hd_str_join: "xs \<noteq> [] \<Longrightarrow> hd xs \<noteq> [] \<Longrightarrow> hd (str_join sep xs) = hd (hd xs)"
  by (induction sep xs rule: str_join.induct) auto

lemma last_str_join:
  "xs \<noteq> [] \<Longrightarrow> last xs \<noteq> [] \<Longrightarrow> last (str_join sep xs) = last (last xs)"
proof (induction sep xs rule: str_join.induct)
  case (3 sep x y ys)
  then have l: "last (str_join sep (y # ys)) = last (last (y # ys))" by simp
  from 3 have "str_join sep (y # ys) \<noteq> []"
    by (intro str_join_last_not_Nil) simp_all
  with l show ?case by simp
qed auto

subsection \<open>\<open>ListField\<close>\<close>

text \<open>
  C5, as stated, fails on the empty sequence: it is encoded as \<open>None\<close>, on which
  decoding raises \<open>AttributeError\<close> instead of returning the empty sequence.
\<close>

theorem ListField_roundtrip_counterexample:
  "ListField_db_value (Some []) = None
   \<and> ListField_python_value (ListField_db_value (Some [])) = Inl AttributeError
   \<and> ListField_python_value (ListField_db_value (Some [])) \<noteq> Inr []"
  by (simp add: ListField_db_value_def ListField_python_value_def)

text \<open>
  C5, amended.  For every non-empty sequence of strings \<open>L\<close> whose elements do not
  contain the separator 0x1F, decoding the encoding of \<open>L\<close> yields \<open>L\<close> again; the
  empty sequence and \<open>None\<close> are encoded as \<open>None\<close>, never as a joined string.
\<close>

theorem ListField_roundtrip:
  assumes "L \<noteq> []" and "\<forall>x\<in>set L. 31 \<notin> set x"
  shows "ListField_python_value (ListField_db_value (Some L)) = Inr L
    \<and> ListField_db_value (Some []) = None
    \<and> ListField_db_value None = None"
proof -
  from assms have "str_split 31 (str_join [31] L) = L" by (rule str_split_join)
  with assms(1) show ?thesis
    by (cases L) (simp_all add: ListField_db_value_def ListField_python_value_def)
qed

theorem ListField_roundtrip_witness:
  "ListField_python_value (ListField_db_value (Some [ascii ''Hello'', [], ascii ''answer'']))
     = Inr [ascii ''Hello'', [], ascii ''answer'']
   \<and> ListField_db_value (Some [ascii ''Hello'', [], ascii ''answer''])
     = Some (ascii ''Hello'' @ [31, 31] @ ascii ''answer'')"
  using ListField_roundtrip [of "[ascii ''Hello'', [], ascii ''answer'']"]
  by (simp add: ascii_def ListField_db_value_def)

subsection \<open>\<open>TagField\<close>\<close>

text \<open>
  C6, as stated, fails on a tag that begins or ends with whitespace other than a
  space: the one tag made of a tabulation (code point 9) is non-empty and holds no
  space, yet \<open>strip\<close> removes it and decoding returns the one empty tag.
\<close>

theorem TagField_roundtrip_counterexample:
  "[[9]] \<noteq> ([] :: pystr list) \<and> [9] \<noteq> ([] :: pystr) \<and> 32 \<notin> set [9::nat]
   \<and> TagField_python_value (TagField_db_value [[9]]) = [[]]
   \<and> mset (TagField_python_value (TagField_db_value [[9]])) \<noteq> mset [[9]]"
  by (simp add: TagField_python_value_def TagField_db_value_def str_strip_def isspace_def)

text \<open>
  C6, amended.  For every non-empty sequence \<open>T\<close> of non-empty tags containing no
  space, whose first tag does not begin and whose last tag does not end with a
  whitespace character, decoding the encoding of \<open>T\<close> is \<open>T\<close>, in the same order
  (so also up to order); and decoding the empty string yields the one-element
  sequence holding the empty string.
\<close>

theorem TagField_roundtrip:
  assumes "T \<noteq> []" and "\<forall>t\<in>set T. t \<noteq> [] \<and> 32 \<notin> set t"
    and "\<not> isspace (hd (hd T))" and "\<not> isspace (last (last T))"
  shows "TagField_python_value (TagField_db_value T) = T
    \<and> mset (TagField_python_value (TagField_db_value T)) = mset T
    \<and> TagField_python_value [] = [[]]"
proof -
  from assms have h: "hd T \<noteq> []" and l: "last T \<noteq> []" by simp_all
  from assms(1) l have ne: "str_join [32] T \<noteq> []" by (rule str_join_last_not_Nil)
  from assms(1) h assms(3) have "\<not> isspace (hd (str_join [32] T))"
    by (simp add: hd_str_join)
  moreover from assms(1) l assms(4) have "\<not> isspace (last (str_join [32] T))"
    by (simp add: last_str_join)
  ultimately have "str_strip (str_join [32] T) = str_join [32] T"
    using ne by (intro str_strip_id)
  moreover from assms have "str_split 32 (str_join [32] T) = T"
    by (intro str_split_join) auto
  ultimately have "TagField_python_value (TagField_db_value T) = T"
    by (simp add: TagField_python_value_def TagField_db_value_def)
  then show ?thesis
    by (simp add: TagField_python_value_def str_strip_def)
qed

theorem TagField_roundtrip_witness:
  "TagField_python_value (TagField_db_value [ascii ''verb'', ascii ''unit-1''])
     = [ascii ''verb'', ascii ''unit-1'']
   \<and> TagField_db_value [ascii ''verb'', ascii ''unit-1''] = ascii ''verb unit-1''"
  using TagField_roundtrip [of "[ascii ''verb'', ascii ''unit-1'']"]
  by (simp add: ascii_def isspace_def TagField_db_value_def)

section \<open>The hooks of \<open>Cards\<close> and \<open>Revlog\<close>\<close>






section \<open>The hook of \<open>Notes\<close>\<close>

lemma allocate_id_eq:
  "allocate_id col rows candidate =
     Inr (if candidate \<in> col ` set rows then Max (col ` set rows) + 1 else candidate)"
  by (simp add: allocate_id_absent allocate_id_present)

lemma guid_loop_fresh:
  "guid \<notin> notes_guid ` set rows \<Longrightarrow> guid_loop rows guid guid64s = Some guid"
  by (cases guid64s) (simp_all add: get_or_none_None)

lemma guid_loop_taken:
  "guid \<in> notes_guid ` set rows \<Longrightarrow>
   guid_loop rows guid guid64s =
     (case dropWhile (\<lambda>g. g \<in> notes_guid ` set rows) guid64s of
        [] \<Rightarrow> None
      | g # _ \<Rightarrow> Some g)"
proof (induction guid64s arbitrary: guid)
  case Nil
  then show ?case by (simp add: get_or_none_None)
next
  case (Cons g gs)
  show ?case
  proof (cases "g \<in> notes_guid ` set rows")
    case True
    with Cons show ?thesis by (simp add: get_or_none_None)
  next
    case False
    with Cons.prems show ?thesis by (simp add: get_or_none_None guid_loop_fresh)
  qed
qed

lemma dropWhile_in_set:
  "dropWhile P xs = y # ys \<Longrightarrow> y \<in> set xs \<and> \<not> P y"
  by (metis dropWhile_eq_Cons_conv in_set_conv_decomp)

lemma guid_loop_Some_taken:
  assumes "guid_loop rows guid guid64s = Some g" and "guid \<in> notes_guid ` set rows"
  shows "g \<notin> notes_guid ` set rows" and "g \<in> set guid64s"
    and "g = hd (dropWhile (\<lambda>x. x \<in> notes_guid ` set rows) guid64s)"
proof -
  from assms obtain ys where
    d: "dropWhile (\<lambda>x. x \<in> notes_guid ` set rows) guid64s = g # ys"
    by (auto simp: guid_loop_taken split: list.splits)
  from dropWhile_in_set [OF d]
  show "g \<notin> notes_guid ` set rows" and "g \<in> set guid64s" by blast+
  from d show "g = hd (dropWhile (\<lambda>x. x \<in> notes_guid ` set rows) guid64s)" by simp
qed

lemma guid_loop_Some_absent:
  assumes "guid_loop rows guid guid64s = Some g"
  shows "g \<notin> notes_guid ` set rows"
proof (cases "guid \<in> notes_guid ` set rows")
  case True
  with assms show ?thesis by (rule guid_loop_Some_taken)
next
  case False
  with assms show ?thesis by (simp add: guid_loop_fresh)
qed


lemma notes_pre_save_eq:
  "notes_pre_save s c guid64s time rows instance created =
     (case guid_loop rows (notes_guid instance) guid64s of
        None \<Rightarrow> None
      | Some g \<Rightarrow>
          (case notes_flds instance of
             None \<Rightarrow> Some (Inl TypeError)
           | Some [] \<Rightarrow> Some (Inl IndexError)
           | Some (f # _) \<Rightarrow>
               Some (Inr (instance
                 \<lparr>notes_id :=
                    (if notes_id instance \<in> notes_id ` set rows
                     then Max (notes_id ` set rows) + 1 else notes_id instance),
                  notes_guid := g,
                  notes_mod := Some (py_int (time * 1000)),
                  notes_sfld := Some (s f),
                  notes_csum := Some (c (s f))\<rparr>))))"
  by (simp add: notes_pre_save_def allocate_id_eq)

lemma notes_pre_save_Inr:
  assumes "notes_pre_save s c guid64s time rows instance created = Some (Inr instance')"
  obtains g f fs where "guid_loop rows (notes_guid instance) guid64s = Some g"
    and "notes_flds instance = Some (f # fs)"
    and "instance' = instance
           \<lparr>notes_id :=
              (if notes_id instance \<in> notes_id ` set rows
               then Max (notes_id ` set rows) + 1 else notes_id instance),
            notes_guid := g,
            notes_mod := Some (py_int (time * 1000)),
            notes_sfld := Some (s f),
            notes_csum := Some (c (s f))\<rparr>"
  using assms
  by (auto simp: notes_pre_save_eq split: option.splits list.splits)






lemma notes_pre_save_fresh:
  assumes "notes_pre_save s c guid64s time rows instance created = Some (Inr instance')"
  shows "notes_id instance' \<notin> notes_id ` set rows"
    and "notes_guid instance' \<notin> notes_guid ` set rows"
proof -
  from assms obtain g f fs where l: "guid_loop rows (notes_guid instance) guid64s = Some g"
    and "notes_flds instance = Some (f # fs)"
    and e: "instance' = instance
           \<lparr>notes_id :=
              (if notes_id instance \<in> notes_id ` set rows
               then Max (notes_id ` set rows) + 1 else notes_id instance),
            notes_guid := g,
            notes_mod := Some (py_int (time * 1000)),
            notes_sfld := Some (s f),
            notes_csum := Some (c (s f))\<rparr>"
    by (rule notes_pre_save_Inr)
  from e have "notes_id instance' =
      (if notes_id instance \<in> notes_id ` set rows
       then Max (notes_id ` set rows) + 1 else notes_id instance)"
    by simp
  then show "notes_id instance' \<notin> notes_id ` set rows"
    using allocate_id_fresh [of "notes_id instance" notes_id rows] by simp
  from e have "notes_guid instance' = g" by simp
  with guid_loop_Some_absent [OF l] show "notes_guid instance' \<notin> notes_guid ` set rows"
    by simp
qed

lemma notes_write_distinct:
  assumes "distinct (map notes_guid rows)"
    and "notes_id instance \<notin> notes_id ` set rows"
    and "notes_guid instance \<notin> notes_guid ` set rows"
  shows "distinct (map notes_guid (notes_write force_insert rows instance))"
proof (cases force_insert)
  case True
  with assms show ?thesis by (simp add: notes_write_def)
next
  case False
  from assms(2) have "map (\<lambda>r. if notes_id r = notes_id instance then instance else r) rows = rows"
    by (induction rows) auto
  with False assms(1) show ?thesis by (simp add: notes_write_def)
qed

lemma notes_save_distinct:
  assumes "distinct (map notes_guid rows)"
  shows "distinct (map notes_guid (notes_save s c rows request))"
proof -
  obtain fi gs t inst where r: "request = (fi, gs, t, inst)"
    by (cases request)
  show ?thesis
  proof (cases "notes_pre_save s c gs t rows inst (fi \<or> notes_id inst = 0)")
    case None
    with r assms show ?thesis by (simp add: notes_save_def)
  next
    case (Some res)
    show ?thesis
    proof (cases res)
      case (Inl e)
      with Some r assms show ?thesis by (simp add: notes_save_def)
    next
      case (Inr inst')
      with Some have h: "notes_pre_save s c gs t rows inst (fi \<or> notes_id inst = 0)
        = Some (Inr inst')" by simp
      from assms notes_pre_save_fresh [OF h]
      have "distinct (map notes_guid (notes_write fi rows inst'))"
        by (rule notes_write_distinct)
      with h r show ?thesis by (simp add: notes_save_def)
    qed
  qed
qed

lemma notes_saves_distinct:
  "distinct (map notes_guid rows) \<Longrightarrow>
   distinct (map notes_guid (foldl (notes_save s c) rows requests))"
  by (induction requests arbitrary: rows) (simp_all add: notes_save_distinct)

text \<open>
  C3, amended.  The hook regenerates the guid while any row of the table holds it,
  the stored row of the note being saved included, each time with the next value of
  \<open>guid64\<close>.  When it returns a record, no row of the table holds the record's guid; the
  guid is the instance's own when no row at all held it, and a drawn one otherwise.
  So every sequence of saves, starting from a table without a shared guid (the empty
  table for one), leaves a table in which no two rows share a guid.
\<close>

theorem notes_guid_unique:
  "(\<forall>instance'. notes_pre_save s c guid64s time rows instance created = Some (Inr instance')
      \<longrightarrow> notes_guid instance' \<notin> notes_guid ` set rows
        \<and> (if notes_guid instance \<in> notes_guid ` set rows
            then notes_guid instance' \<in> set guid64s
            else notes_guid instance' = notes_guid instance))
   \<and> (distinct (map notes_guid rows)
      \<longrightarrow> distinct (map notes_guid (foldl (notes_save s c) rows requests)))
   \<and> distinct (map notes_guid (foldl (notes_save s c) [] requests))"
proof (intro conjI allI impI)
  fix instance'
  assume h: "notes_pre_save s c guid64s time rows instance created = Some (Inr instance')"
  then show "notes_guid instance' \<notin> notes_guid ` set rows"
    by (rule notes_pre_save_fresh)
  from h obtain g f fs where l: "guid_loop rows (notes_guid instance) guid64s = Some g"
    and "notes_flds instance = Some (f # fs)"
    and e: "instance' = instance
           \<lparr>notes_id :=
              (if notes_id instance \<in> notes_id ` set rows
               then Max (notes_id ` set rows) + 1 else notes_id instance),
            notes_guid := g,
            notes_mod := Some (py_int (time * 1000)),
            notes_sfld := Some (s f),
            notes_csum := Some (c (s f))\<rparr>"
    by (rule notes_pre_save_Inr)
  from e have g: "notes_guid instance' = g" by simp
  show "if notes_guid instance \<in> notes_guid ` set rows
        then notes_guid instance' \<in> set guid64s
        else notes_guid instance' = notes_guid instance"
  proof (cases "notes_guid instance \<in> notes_guid ` set rows")
    case True
    with guid_loop_Some_taken(2) [OF l] g show ?thesis by simp
  next
    case False
    with l g show ?thesis by (simp add: guid_loop_fresh)
  qed
next
  assume "distinct (map notes_guid rows)"
  then show "distinct (map notes_guid (foldl (notes_save s c) rows requests))"
    by (rule notes_saves_distinct)
next
  show "distinct (map notes_guid (foldl (notes_save s c) [] requests))"
    by (rule notes_saves_distinct) simp
qed

text \<open>
  C3, as stated, fails when a note is saved again: the table holds the one row of the
  note itself, no other record has its guid, and yet the hook replaces the guid.
\<close>

theorem notes_guid_unique_counterexample:
  "(let n = \<lparr>notes_id = 1, notes_guid = ascii ''a'', notes_mid = Some 1, notes_mod = Some 5,
             notes_usn = - 1, notes_tags = [], notes_flds = Some [ascii ''Q'', ascii ''A''],
             notes_sfld = Some (ascii ''Q''), notes_csum = Some 0, notes_flags = 0,
             notes_data = []\<rparr>
    in notes_pre_save (\<lambda>x. x) (\<lambda>x. 0) [ascii ''b''] 6 [n] n False
         = Some (Inr (n\<lparr>notes_id := 2, notes_guid := ascii ''b'', notes_mod := Some 6000\<rparr>))
       \<and> ascii ''b'' \<noteq> notes_guid n
       \<and> filter (\<lambda>r. notes_id r \<noteq> notes_id n \<and> notes_guid r = notes_guid n) [n] = [])"
  by (simp add: Let_def notes_pre_save_def allocate_id_present get_or_none_def ascii_def
      py_int_def)




text \<open>
  A note is created, created once more with the same \<open>id\<close> and \<open>guid\<close>, and then saved
  without \<open>force_insert\<close>: the table ends with the two created rows.
\<close>

theorem notes_guid_unique_witness:
  "(let n = \<lparr>notes_id = 1, notes_guid = ascii ''a'', notes_mid = Some 1, notes_mod = None,
             notes_usn = - 1, notes_tags = [], notes_flds = Some [ascii ''Hi<b>'', ascii ''A''],
             notes_sfld = Some (ascii ''zz''), notes_csum = Some 99, notes_flags = 0,
             notes_data = []\<rparr>
    in map (\<lambda>r. (notes_id r, notes_guid r))
         (foldl (notes_save (takeWhile (\<lambda>c. c \<noteq> 60)) (\<lambda>x. int (length x))) []
            [(True, [], 1, n), (True, [ascii ''a'', ascii ''b''], 2, n),
             (False, [ascii ''c''], 3, n)])
       = [(1, ascii ''a''), (2, ascii ''b'')])"
proof -
  let ?n = "\<lparr>notes_id = 1, notes_guid = ascii ''a'', notes_mid = Some 1, notes_mod = None,
             notes_usn = - 1, notes_tags = [], notes_flds = Some [ascii ''Hi<b>'', ascii ''A''],
             notes_sfld = Some (ascii ''zz''), notes_csum = Some 99, notes_flags = 0,
             notes_data = []\<rparr>"
  from notes_guid_unique [where ?rows = "[]" and ?s = "takeWhile (\<lambda>c. c \<noteq> 60)"
      and ?c = "\<lambda>x. int (length x)"
      and ?requests = "[(True, [], 1, ?n), (True, [ascii ''a'', ascii ''b''], 2, ?n),
             (False, [ascii ''c''], 3, ?n)]"]
  show ?thesis
    by (simp add: Let_def notes_save_def notes_write_def notes_pre_save_def allocate_id_absent
        allocate_id_present get_or_none_def ascii_def py_int_def)
qed

section \<open>The \<open>JSONField\<close> codec\<close>


lemma py_in_iff: "py_in x s \<longleftrightarrow> (\<exists>y\<in>set s. py_eq x y)"
  by (simp add: py_in_def list_ex_iff)

lemma py_in_append: "py_in x (s @ t) \<longleftrightarrow> py_in x s \<or> py_in x t"
  by (auto simp: py_in_iff)














end
